theory Spec2Isabelle
  imports Main "HOL-Library.AList"
begin

section \<open>Data model\<close>

text \<open>
  \<^verbatim>\<open>interface CacheEntry { value: unknown; expires?: number; }\<close>
  The field \<open>value\<close> is named \<open>entry_value\<close> here. An absent (\<open>undefined\<close>) \<open>expires\<close>
  is \<open>None\<close>; a present one is an integer number of epoch milliseconds.
  The values, of a type \<open>'v\<close>, are primitive serialisable data (numbers, strings, booleans,
  \<open>null\<close>): on them \<open>===\<close> is equality, they are no arrays and they have no properties
  \<open>value\<close> or \<open>expires\<close>. Arrays and objects as values, which \<open>===\<close> compares by
  reference, are outside this model, and so is \<open>undefined\<close>.
\<close>

record 'v CacheEntry =
  entry_value :: 'v
  expires :: "int option"

text \<open>
  \<^verbatim>\<open>private data: Dict<CacheEntry | CacheEntry[]>\<close>
  A slot is one entry or an array of entries (\<open>Array.isArray\<close> tells them apart).
\<close>

datatype 'v slot = Scalar "'v CacheEntry" | Items "'v CacheEntry list"

text \<open>
  The object held in \<open>data\<close>. Its own properties are an association list in the key order
  of the JavaScript object (JavaScript lists keys that are array indices first; nothing
  below depends on the order of the keys). Its prototype is \<open>Object.prototype\<close> (\<open>None\<close>)
  until an assignment to the key \<open>__proto__\<close> replaces it by the assigned entry or array:
  the object is created by \<open>{}\<close> or by \<open>JSON.parse\<close>, so the key \<open>__proto__\<close> reaches the
  accessor of \<open>Object.prototype\<close> unless the object has an own property of that name
  (which \<open>JSON.parse\<close> creates when the text has one).
\<close>

record 'v dict =
  own :: "(string \<times> 'v slot) list"
  proto :: "'v slot option"

text \<open>A time to live: \<open>Infinity\<close> or a number of milliseconds.\<close>

datatype millis = Infinity | Finite int

text \<open>
  \<^verbatim>\<open>type ValuePredicate<T> = ((value: T) => boolean) | T\<close>
  The argument of \<open>pull\<close>: a function (\<open>typeof value === 'function'\<close>) or a literal, which
  is a primitive value like the stored ones.
\<close>

datatype 'v ValuePredicate = Literal 'v | Predicate "'v \<Rightarrow> bool"

text \<open>
  The text of the backing file, by what \<open>JSON.parse\<close> makes of it: it throws a
  \<open>SyntaxError\<close> (\<open>Malformed\<close>), it returns an object whose members have the declared type
  of the slots of \<open>data\<close> (\<open>Snapshot\<close>, with the members in their order), or it returns a
  primitive such as \<open>42\<close> or \<open>null\<close> (\<open>Primitive\<close>).
  \<open>JSON.stringify\<close> writes the own properties of \<open>data\<close> and \<open>JSON.parse\<close> is taken to
  give them back (an \<open>expires\<close> that is \<open>undefined\<close> is left out of the text and is absent
  again on reading). Other valid JSON texts (arrays, objects with slots of another shape)
  are not modelled.
\<close>

datatype json_prim = JNull | JBool bool | JNum int | JStr string

datatype 'v file_text = Malformed | Snapshot "(string \<times> 'v slot) list" | Primitive json_prim

text \<open>
  The surroundings of a store: the file system, and the event loop's queue of pending
  \<open>setImmediate\<close> callbacks, each named by its handle. Every callback in the queue is
  \<open>() => this.save()\<close> of the one store.
\<close>

record 'v env =
  files :: "string \<Rightarrow> 'v file_text option"
  immediates :: "nat list"
  next_immediate :: nat

record 'v BoringCache =
  path :: string
  ttl :: millis
  data :: "'v dict"
  writeDebounceTimer :: "nat option"

type_synonym 'v world = "'v BoringCache \<times> 'v env"

record 'v BoringCacheOptions =
  opt_data :: "(string \<times> 'v) list option"
  opt_ttl :: "millis option"

datatype error = SyntaxError

text \<open>
  What \<open>new BoringCache(path, options)\<close> does: it throws, or it returns a store. In the
  third case it returns normally with \<open>this.data\<close> holding a primitive, a value outside the
  declared type of the field; what the methods then do is outside this model.
\<close>

datatype 'v construction =
    Raised error
  | Created "'v world"
  | Created_unchecked json_prim "'v env"

section \<open>Expiration tests\<close>

text \<open>JavaScript truthiness of \<open>expires\<close>: \<open>undefined\<close> and \<open>0\<close> are falsy.\<close>

definition truthy :: "int option \<Rightarrow> bool" where
  "truthy x = (case x of None \<Rightarrow> False | Some n \<Rightarrow> n \<noteq> 0)"

text \<open>\<open>expires > now\<close> and \<open>expires < now\<close>; both are false when \<open>expires\<close> is \<open>undefined\<close>.\<close>

definition gt_now :: "int option \<Rightarrow> int \<Rightarrow> bool" where
  "gt_now x now = (case x of None \<Rightarrow> False | Some n \<Rightarrow> n > now)"

definition lt_now :: "int option \<Rightarrow> int \<Rightarrow> bool" where
  "lt_now x now = (case x of None \<Rightarrow> False | Some n \<Rightarrow> n < now)"

text \<open>\<^verbatim>\<open>item => !item.expires || item.expires > now\<close>\<close>

definition unexpired :: "int \<Rightarrow> 'v CacheEntry \<Rightarrow> bool" where
  "unexpired now item = (\<not> truthy (expires item) \<or> gt_now (expires item) now)"

text \<open>\<^verbatim>\<open>expires: ttl === Infinity ? undefined : Date.now() + ttl\<close>\<close>

definition expiry :: "millis \<Rightarrow> int \<Rightarrow> int option" where
  "expiry t now = (case t of Infinity \<Rightarrow> None | Finite n \<Rightarrow> Some (now + n))"

section \<open>Property access on \<open>data\<close>\<close>

text \<open>
  The keys that are indices of an array: the decimal numerals without a leading zero,
  below \<open>2^32 - 1\<close>.
\<close>

definition digit_of :: "char \<Rightarrow> nat option" where
  "digit_of ch =
     map_of [(CHR ''0'', 0), (CHR ''1'', 1), (CHR ''2'', 2), (CHR ''3'', 3), (CHR ''4'', 4),
             (CHR ''5'', 5), (CHR ''6'', 6), (CHR ''7'', 7), (CHR ''8'', 8), (CHR ''9'', 9)] ch"

fun digits_value :: "string \<Rightarrow> nat \<Rightarrow> nat option" where
  "digits_value [] acc = Some acc"
| "digits_value (ch # rest) acc =
     (case digit_of ch of
        None \<Rightarrow> None
      | Some n \<Rightarrow> digits_value rest (10 * acc + n))"

definition array_index :: "string \<Rightarrow> nat option" where
  "array_index key =
     (if key = [] \<or> (hd key = CHR ''0'' \<and> tl key \<noteq> []) then None
      else (case digits_value key 0 of
              None \<Rightarrow> None
            | Some i \<Rightarrow> if i < 4294967295 then Some i else None))"

text \<open>
  What a key that is no own property of \<open>data\<close> finds on the prototype chain, as far as the
  methods can tell. The key \<open>__proto__\<close> finds the prototype itself. When the prototype is
  an array, an index below its length finds that element, an entry. Everything else
  that is inherited (the functions of \<open>Object.prototype\<close> and \<open>Array.prototype\<close>,
  \<open>Object.prototype\<close> itself, the \<open>length\<close> of an array, the \<open>value\<close> and \<open>expires\<close> of an
  entry) is no array and has no \<open>value\<close> and no \<open>expires\<close>: \<open>get\<close> returns \<open>undefined\<close> for
  it, \<open>list\<close> returns \<open>[]\<close>, \<open>push\<close> starts from \<open>[]\<close> and \<open>pull\<close> returns, as they do for
  \<open>undefined\<close>; it is \<open>None\<close> here.
\<close>

definition inherited :: "'v slot option \<Rightarrow> string \<Rightarrow> 'v slot option" where
  "inherited p key =
     (if key = ''__proto__'' then p
      else (case p of
              Some (Items items) \<Rightarrow>
                (case array_index key of
                   Some i \<Rightarrow> if i < length items then Some (Scalar (items ! i)) else None
                 | None \<Rightarrow> None)
            | _ \<Rightarrow> None))"

text \<open>\<open>data[key]\<close>\<close>

definition lookup :: "'v dict \<Rightarrow> string \<Rightarrow> 'v slot option" where
  "lookup d key =
     (case map_of (own d) key of
        Some s \<Rightarrow> Some s
      | None \<Rightarrow> inherited (proto d) key)"

text \<open>
  \<open>data[key] = s\<close>, for an entry or an array \<open>s\<close>. An own property is updated in place and
  a new key becomes the last own property, except the key \<open>__proto__\<close>: without an own
  property of that name the assignment calls the setter of \<open>Object.prototype\<close>, which
  makes \<open>s\<close> the prototype of \<open>data\<close> and creates no own property.
\<close>

definition assign :: "string \<Rightarrow> 'v slot \<Rightarrow> 'v dict \<Rightarrow> 'v dict" where
  "assign key s d =
     (if key = ''__proto__'' \<and> map_of (own d) key = None then d\<lparr>proto := Some s\<rparr>
      else d\<lparr>own := AList.update key s (own d)\<rparr>)"

text \<open>\<open>delete data[key]\<close> removes an own property and nothing else.\<close>

definition delete_property :: "string \<Rightarrow> 'v dict \<Rightarrow> 'v dict" where
  "delete_property key d = d\<lparr>own := AList.delete key (own d)\<rparr>"

text \<open>\<open>Object.keys(data)\<close>: the own keys, each once.\<close>

definition keys :: "'v dict \<Rightarrow> string list" where
  "keys d = remdups (map fst (own d))"

text \<open>\<open>{}\<close>\<close>

definition empty_object :: "'v dict" where
  "empty_object = \<lparr>own = [], proto = None\<rparr>"

section \<open>Scheduling\<close>

definition setImmediate :: "'v env \<Rightarrow> nat \<times> 'v env" where
  "setImmediate e =
     (next_immediate e,
      e\<lparr>immediates := immediates e @ [next_immediate e],
        next_immediate := Suc (next_immediate e)\<rparr>)"

definition clearImmediate :: "nat \<Rightarrow> 'v env \<Rightarrow> 'v env" where
  "clearImmediate h e = e\<lparr>immediates := removeAll h (immediates e)\<rparr>"

fun scheduleWrite :: "'v world \<Rightarrow> 'v world" where
  "scheduleWrite (c, e) =
     (case writeDebounceTimer c of
        Some h \<Rightarrow> (c, e)
      | None \<Rightarrow>
          (case setImmediate e of
             (h, e') \<Rightarrow> (c\<lparr>writeDebounceTimer := Some h\<rparr>, e')))"

section \<open>Reads\<close>

text \<open>
  Every method is a function from the state before the call to its result and the state
  after it. \<open>now\<close> is what \<open>Date.now()\<close> returns in the call. \<open>get\<close> returns \<open>None\<close> for
  \<open>undefined\<close>.
\<close>

definition get :: "string \<Rightarrow> int \<Rightarrow> 'v BoringCache \<Rightarrow> 'v option \<times> 'v BoringCache" where
  "get key now c =
     (case lookup (data c) key of
        Some (Items items) \<Rightarrow> (None, c)
      | Some (Scalar entry) \<Rightarrow>
          (if \<not> truthy (expires entry) \<or> gt_now (expires entry) now
           then (Some (entry_value entry), c) else (None, c))
      | None \<Rightarrow> (None, c))"

definition list_values :: "string \<Rightarrow> int \<Rightarrow> 'v BoringCache \<Rightarrow> 'v list \<times> 'v BoringCache" where
  "list_values key now c =
     (case lookup (data c) key of
        Some (Items items) \<Rightarrow> (map entry_value (filter (unexpired now) items), c)
      | Some (Scalar entry) \<Rightarrow> ([], c)
      | None \<Rightarrow> ([], c))"

section \<open>Writes\<close>

text \<open>\<open>_set\<close>, the private method.\<close>

definition set_internal :: "string \<Rightarrow> 'v \<Rightarrow> millis \<Rightarrow> int \<Rightarrow> 'v BoringCache \<Rightarrow> 'v BoringCache" where
  "set_internal key v t now c =
     c\<lparr>data := assign key
         (Scalar \<lparr>entry_value = v, expires = expiry t now\<rparr>) (data c)\<rparr>"

text \<open>A \<open>ttl\<close> argument left out is \<open>None\<close> and defaults to \<open>Infinity\<close>.\<close>

definition ttl_arg :: "millis option \<Rightarrow> millis" where
  "ttl_arg t = (case t of None \<Rightarrow> Infinity | Some n \<Rightarrow> n)"

fun set_value :: "string \<Rightarrow> 'v \<Rightarrow> millis option \<Rightarrow> int \<Rightarrow> 'v world \<Rightarrow> 'v world" where
  "set_value key v t now (c, e) = scheduleWrite (set_internal key v (ttl_arg t) now c, e)"

fun push :: "string \<Rightarrow> 'v \<Rightarrow> millis option \<Rightarrow> int \<Rightarrow> 'v world \<Rightarrow> 'v world" where
  "push key v t now (c, e) =
     scheduleWrite
       (c\<lparr>data := assign key
            (Items ((case lookup (data c) key of Some (Items items) \<Rightarrow> items | _ \<Rightarrow> [])
                    @ [\<lparr>entry_value = v, expires = expiry (ttl_arg t) now\<rparr>]))
            (data c)\<rparr>, e)"

text \<open>
  \<^verbatim>\<open>typeof value === 'function' ? value : (comparingValue) => comparingValue === value\<close>
  On the primitive values of this model \<open>===\<close> is equality.
\<close>

fun matcher_of :: "'v ValuePredicate \<Rightarrow> 'v \<Rightarrow> bool" where
  "matcher_of (Predicate f) = f"
| "matcher_of (Literal v) = (\<lambda>comparingValue. comparingValue = v)"

text \<open>
  \<open>pull\<close> of the file with options, \<^verbatim>\<open>src/unnamed/part_000\<close>
  (\<open>items.filter(({value}) => !matcher(value))\<close>). Every other definition here follows
  that file, except where another file is named.
\<close>

fun pull :: "string \<Rightarrow> 'v ValuePredicate \<Rightarrow> 'v world \<Rightarrow> 'v world" where
  "pull key v (c, e) =
     (case lookup (data c) key of
        Some (Items items) \<Rightarrow>
          scheduleWrite
            (c\<lparr>data := assign key
                 (Items (filter (\<lambda>item. \<not> matcher_of v (entry_value item)) items))
                 (data c)\<rparr>, e)
      | _ \<Rightarrow> (c, e))"

text \<open>
  \<open>pull\<close> of the file without options, \<^verbatim>\<open>src/unnamed/part_001\<close>
  (\<open>items.filter(({value}) => filter(value))\<close>); \<open>push\<close>, \<open>list\<close> and \<open>scheduleWrite\<close> are
  the same in both files.
\<close>

fun pull_part_001 :: "string \<Rightarrow> 'v ValuePredicate \<Rightarrow> 'v world \<Rightarrow> 'v world" where
  "pull_part_001 key v (c, e) =
     (case lookup (data c) key of
        Some (Items items) \<Rightarrow>
          scheduleWrite
            (c\<lparr>data := assign key
                 (Items (filter (\<lambda>item. matcher_of v (entry_value item)) items))
                 (data c)\<rparr>, e)
      | _ \<Rightarrow> (c, e))"

fun delete_key :: "string \<Rightarrow> 'v world \<Rightarrow> 'v world" where
  "delete_key key (c, e) = scheduleWrite (c\<lparr>data := delete_property key (data c)\<rparr>, e)"

fun clear :: "'v world \<Rightarrow> 'v world" where
  "clear (c, e) = scheduleWrite (c\<lparr>data := empty_object\<rparr>, e)"

section \<open>Saving\<close>

text \<open>The body of the loop of \<open>save\<close>, for one key.\<close>

definition sweep_key :: "int \<Rightarrow> string \<Rightarrow> 'v dict \<Rightarrow> 'v dict" where
  "sweep_key now key d =
     (case lookup d key of
        Some (Items entry) \<Rightarrow>
          (let entry' = filter (unexpired now) entry in
           if entry' \<noteq> [] then assign key (Items entry') d
           else delete_property key d)
      | Some (Scalar entry) \<Rightarrow>
          (if truthy (expires entry) \<and> lt_now (expires entry) now
           then delete_property key d else d)
      | None \<Rightarrow> delete_property key d)"

text \<open>\<^verbatim>\<open>for (let key of Object.keys(data)) { ... }\<close>\<close>

definition sweep :: "int \<Rightarrow> 'v dict \<Rightarrow> 'v dict" where
  "sweep now d = fold (sweep_key now) (keys d) d"

text \<open>\<open>FS.outputJSONSync(this.path, data)\<close> writes the own properties of \<open>data\<close>.\<close>

fun save :: "int \<Rightarrow> 'v world \<Rightarrow> 'v world" where
  "save now (c, e) =
     (let e1 = (case writeDebounceTimer c of
                  Some h \<Rightarrow> clearImmediate h e
                | None \<Rightarrow> e);
          d = sweep now (data c)
      in (c\<lparr>writeDebounceTimer := None, data := d\<rparr>,
          e1\<lparr>files := (files e1)(path c \<mapsto> Snapshot (own d))\<rparr>))"

text \<open>
  The callback given to \<open>setImmediate\<close>, when the event loop runs it: the loop takes the
  first pending callback off its queue and calls \<open>this.save()\<close>.
\<close>

fun run_immediate :: "int \<Rightarrow> 'v world \<Rightarrow> 'v world" where
  "run_immediate now (c, e) =
     (case immediates e of
        [] \<Rightarrow> (c, e)
      | h # hs \<Rightarrow> save now (c, e\<lparr>immediates := hs\<rparr>))"

text \<open>\<^verbatim>\<open>process.on('exit', () => { if (this.writeDebounceTimer) { this.save(); } })\<close>\<close>

fun on_exit :: "int \<Rightarrow> 'v world \<Rightarrow> 'v world" where
  "on_exit now (c, e) =
     (case writeDebounceTimer c of
        Some h \<Rightarrow> save now (c, e)
      | None \<Rightarrow> (c, e))"

section \<open>Construction\<close>

text \<open>
  \<^verbatim>\<open>for (let [key, value] of Object.entries(data || {})) { this._set(key, value, ttl); }\<close>
  Each \<open>_set\<close> reads \<open>Date.now()\<close> anew: \<open>clock i\<close> is the \<open>i\<close>-th reading of the clock
  during the call of the constructor.
\<close>

fun seed :: "(string \<times> 'v) list \<Rightarrow> millis \<Rightarrow> (nat \<Rightarrow> int) \<Rightarrow> 'v BoringCache \<Rightarrow> 'v BoringCache" where
  "seed [] t clock c = c"
| "seed ((key, v) # rest) t clock c =
     seed rest t (\<lambda>i. clock (Suc i)) (set_internal key v t (clock 0) c)"

text \<open>\<^verbatim>\<open>{data, ttl = Infinity}: BoringCacheOptions<object> = {}\<close>\<close>

definition options_data :: "'v BoringCacheOptions option \<Rightarrow> (string \<times> 'v) list" where
  "options_data options =
     (case options of
        None \<Rightarrow> []
      | Some opts \<Rightarrow> (case opt_data opts of None \<Rightarrow> [] | Some entries \<Rightarrow> entries))"

definition options_ttl :: "'v BoringCacheOptions option \<Rightarrow> millis" where
  "options_ttl options =
     (case options of
        None \<Rightarrow> Infinity
      | Some opts \<Rightarrow> (case opt_ttl opts of None \<Rightarrow> Infinity | Some t \<Rightarrow> t))"

definition constructor ::
  "string \<Rightarrow> 'v BoringCacheOptions option \<Rightarrow> (nat \<Rightarrow> int) \<Rightarrow> 'v env \<Rightarrow> 'v construction" where
  "constructor p options clock e =
     (case files e p of
        Some Malformed \<Rightarrow> Raised SyntaxError
      | Some (Primitive j) \<Rightarrow> Created_unchecked j e
      | Some (Snapshot d) \<Rightarrow>
          Created (\<lparr>path = p, ttl = options_ttl options, data = \<lparr>own = d, proto = None\<rparr>,
                    writeDebounceTimer = None\<rparr>, e)
      | None \<Rightarrow>
          (let entries = options_data options;
               c = seed entries (options_ttl options) clock
                     \<lparr>path = p, ttl = options_ttl options, data = empty_object,
                      writeDebounceTimer = None\<rparr>
           in Created (save (clock (length entries)) (c, e))))"

text \<open>
  The constructor of \<^verbatim>\<open>src/unnamed/part_001\<close> and of \<^verbatim>\<open>src/index.ts\<close>, the same lines in
  both: it takes the path only, and without a file it does
  \<^verbatim>\<open>this.data = {}; this.scheduleWrite();\<close>
  These classes have no field \<open>ttl\<close>; the one of the record is \<open>Infinity\<close> here, the default
  of their \<open>set\<close>.
\<close>

definition constructor_part_001 :: "string \<Rightarrow> 'v env \<Rightarrow> 'v construction" where
  "constructor_part_001 p e =
     (case files e p of
        Some Malformed \<Rightarrow> Raised SyntaxError
      | Some (Primitive j) \<Rightarrow> Created_unchecked j e
      | Some (Snapshot d) \<Rightarrow>
          Created (\<lparr>path = p, ttl = Infinity, data = \<lparr>own = d, proto = None\<rparr>,
                    writeDebounceTimer = None\<rparr>, e)
      | None \<Rightarrow>
          Created (scheduleWrite
            (\<lparr>path = p, ttl = Infinity, data = empty_object, writeDebounceTimer = None\<rparr>, e)))"

section \<open>Sequences of calls\<close>

text \<open>
  A call of a public method, or the event loop running the pending callback; each comes
  with the reading of the clock during it.
\<close>

datatype 'v call =
    Get string
  | Set string 'v "millis option"
  | List string
  | Push string 'v "millis option"
  | Pull string "'v ValuePredicate"
  | Delete string
  | Clear
  | Save
  | Immediate

fun exec :: "'v call \<times> int \<Rightarrow> 'v world \<Rightarrow> 'v world" where
  "exec (Get key, now) (c, e) = (snd (get key now c), e)"
| "exec (Set key v t, now) w = set_value key v t now w"
| "exec (List key, now) (c, e) = (snd (list_values key now c), e)"
| "exec (Push key v t, now) w = push key v t now w"
| "exec (Pull key m, now) w = pull key m w"
| "exec (Delete key, now) w = delete_key key w"
| "exec (Clear, now) w = clear w"
| "exec (Save, now) w = save now w"
| "exec (Immediate, now) w = run_immediate now w"

definition run :: "('v call \<times> int) list \<Rightarrow> 'v world \<Rightarrow> 'v world" where
  "run calls w = fold exec calls w"

section \<open>Auxiliary definitions\<close>

text \<open>What one pass of the loop of \<open>save\<close> leaves of a slot: \<open>None\<close> when the key is deleted.\<close>

fun kept :: "int \<Rightarrow> 'v slot \<Rightarrow> 'v slot option" where
  "kept now (Items xs) =
     (if filter (unexpired now) xs \<noteq> [] then Some (Items (filter (unexpired now) xs)) else None)"
| "kept now (Scalar entry) =
     (if truthy (expires entry) \<and> lt_now (expires entry) now then None else Some (Scalar entry))"

text \<open>A store with no data and surroundings with no file, for concrete runs.\<close>

definition store0 :: "int BoringCache" where
  "store0 = \<lparr>path = ''cache.json'', ttl = Infinity, data = empty_object,
             writeDebounceTimer = None\<rparr>"

definition env0 :: "int env" where
  "env0 = \<lparr>files = Map.empty, immediates = [], next_immediate = 0\<rparr>"

text \<open>Readings of the clock, one millisecond apart.\<close>

definition clock0 :: "nat \<Rightarrow> int" where
  "clock0 i = 1700000000000 + int i"

text \<open>A store with scalar and list slots, some of them stale at time \<open>1000\<close>.\<close>

definition store1 :: "int BoringCache" where
  "store1 = \<lparr>path = ''cache.json'', ttl = Infinity,
     data = \<lparr>own =
       [(''a'', Scalar \<lparr>entry_value = 1, expires = Some 2000\<rparr>),
        (''b'', Items [\<lparr>entry_value = 2, expires = Some 1000\<rparr>,
                       \<lparr>entry_value = 3, expires = Some 1001\<rparr>]),
        (''c'', Scalar \<lparr>entry_value = 4, expires = Some 999\<rparr>),
        (''d'', Scalar \<lparr>entry_value = 5, expires = Some 0\<rparr>),
        (''e'', Items [\<lparr>entry_value = 6, expires = Some 0\<rparr>])], proto = None\<rparr>,
     writeDebounceTimer = None\<rparr>"

text \<open>The store and the surroundings right after construction on a path with no file.\<close>

definition world0 :: "int world" where
  "world0 = (store0, env0\<lparr>files := [''cache.json'' \<mapsto> Snapshot []]\<rparr>)"

text \<open>The data of \<open>store1\<close> with every \<open>expires\<close> absent.\<close>

definition store1_unexpiring :: "int BoringCache" where
  "store1_unexpiring = store1\<lparr>data := \<lparr>own =
       [(''a'', Scalar \<lparr>entry_value = 1, expires = None\<rparr>),
        (''b'', Items [\<lparr>entry_value = 2, expires = None\<rparr>,
                       \<lparr>entry_value = 3, expires = None\<rparr>]),
        (''c'', Scalar \<lparr>entry_value = 4, expires = None\<rparr>),
        (''d'', Scalar \<lparr>entry_value = 5, expires = None\<rparr>),
        (''e'', Items [\<lparr>entry_value = 6, expires = None\<rparr>])], proto = None\<rparr>\<rparr>"

text \<open>
  The scheduling invariant: the queue of the event loop holds the handle in
  \<open>writeDebounceTimer\<close> and nothing else.
\<close>

definition pending_ok :: "'v world \<Rightarrow> bool" where
  "pending_ok w =
     (immediates (snd w) = (case writeDebounceTimer (fst w) of None \<Rightarrow> [] | Some h \<Rightarrow> [h]))"

fun mutation :: "'v call \<Rightarrow> bool" where
  "mutation (Set key v t) = True"
| "mutation (Push key v t) = True"
| "mutation (Pull key m) = True"
| "mutation (Delete key) = True"
| "mutation Clear = True"
| "mutation (Get key) = False"
| "mutation (List key) = False"
| "mutation Save = False"
| "mutation Immediate = False"

text \<open>
  A dictionary without its \<open>expires\<close> fields: the own keys in their order, each with the
  value of its scalar entry or the values of its list, and the same for the prototype.
\<close>

fun slot_values :: "'v slot \<Rightarrow> 'v + 'v list" where
  "slot_values (Scalar entry) = Inl (entry_value entry)"
| "slot_values (Items items) = Inr (map entry_value items)"

definition values_of :: "'v dict \<Rightarrow> (string \<times> ('v + 'v list)) list \<times> ('v + 'v list) option" where
  "values_of d = (map (\<lambda>(k, s). (k, slot_values s)) (own d), map_option slot_values (proto d))"

section \<open>Basic facts\<close>

lemma data_scheduleWrite: "data (fst (scheduleWrite (c, e))) = data c"
  by (simp add: setImmediate_def split: option.splits)

lemma data_save: "data (fst (save now (c, e))) = sweep now (data c)"
  by (simp add: Let_def)

lemma path_save: "path (fst (save now (c, e))) = path c"
  by (simp add: Let_def)

lemma timer_save: "writeDebounceTimer (fst (save now (c, e))) = None"
  by (simp add: Let_def)

lemma files_save:
  "files (snd (save now (c, e))) = (files e)(path c \<mapsto> Snapshot (own (sweep now (data c))))"
  by (simp add: Let_def clearImmediate_def split: option.splits)

lemma immediates_save:
  "immediates (snd (save now (c, e))) =
     (case writeDebounceTimer c of None \<Rightarrow> immediates e | Some h \<Rightarrow> removeAll h (immediates e))"
  by (simp add: Let_def clearImmediate_def split: option.splits)

declare save.simps [simp del]

lemma lookup_assign: "lookup (assign key s d) key = Some s"
  by (auto simp: lookup_def assign_def inherited_def update_conv')

lemma lookup_own: "map_of (own d) key = Some s \<Longrightarrow> lookup d key = Some s"
  by (simp add: lookup_def)

subsection \<open>The loop of \<open>save\<close>, key by key\<close>

lemma sweep_key_own:
  assumes "map_of (own d) key = Some s"
  shows "proto (sweep_key now key d) = proto d"
    and "map_of (own (sweep_key now key d)) k =
      (if k = key then kept now s else map_of (own d) k)"
  using assms
  by (auto simp: sweep_key_def lookup_def assign_def delete_property_def Let_def
      update_conv' delete_conv' split: slot.splits)

lemma fold_sweep_key:
  "distinct ks \<Longrightarrow> (\<forall>k\<in>set ks. map_of (own d) k \<noteq> None) \<Longrightarrow>
   proto (fold (sweep_key now) ks d) = proto d \<and>
   (\<forall>k. map_of (own (fold (sweep_key now) ks d)) k =
      (if k \<in> set ks then Option.bind (map_of (own d) k) (kept now) else map_of (own d) k))"
proof (induction ks arbitrary: d)
  case Nil
  show ?case by simp
next
  case (Cons a ks)
  from Cons.prems obtain s where s: "map_of (own d) a = Some s" by auto
  let ?d = "sweep_key now a d"
  have p: "proto ?d = proto d"
    and o: "\<And>k. map_of (own ?d) k = (if k = a then kept now s else map_of (own d) k)"
    using sweep_key_own [OF s] by simp_all
  from Cons.prems have d: "distinct ks" and na: "a \<notin> set ks" by simp_all
  have "\<forall>k\<in>set ks. map_of (own ?d) k \<noteq> None"
    using Cons.prems na by (auto simp: o)
  from Cons.IH [OF d this] show ?case
    using p o s na by auto
qed

lemma proto_sweep: "proto (sweep now d) = proto d"
proof -
  have "\<forall>k\<in>set (keys d). map_of (own d) k \<noteq> None"
    by (auto simp: keys_def map_of_eq_None_iff)
  then show ?thesis
    using fold_sweep_key [of "keys d" d now] by (simp add: sweep_def keys_def)
qed

lemma map_of_sweep:
  "map_of (own (sweep now d)) k = Option.bind (map_of (own d) k) (kept now)"
proof -
  have a: "\<forall>k\<in>set (keys d). map_of (own d) k \<noteq> None"
    by (auto simp: keys_def map_of_eq_None_iff)
  have "distinct (keys d)" by (simp add: keys_def)
  from fold_sweep_key [OF this a, of now]
  have f: "map_of (own (sweep now d)) k =
      (if k \<in> set (keys d) then Option.bind (map_of (own d) k) (kept now) else map_of (own d) k)"
    by (simp add: sweep_def)
  show ?thesis
  proof (cases "map_of (own d) k")
    case None
    then have "k \<notin> set (keys d)" by (simp add: keys_def map_of_eq_None_iff)
    with None f show ?thesis by simp
  next
    case (Some s)
    then have "k \<in> set (keys d)"
      by (metis keys_def map_of_eq_None_iff option.distinct(1) set_map set_remdups)
    with Some f show ?thesis by simp
  qed
qed

lemma lookup_sweep:
  "lookup (sweep now d) k =
     (case Option.bind (map_of (own d) k) (kept now) of
        Some s \<Rightarrow> Some s
      | None \<Rightarrow> inherited (proto d) k)"
  by (simp add: lookup_def map_of_sweep proto_sweep split: option.splits)

lemma lookup_plain: "inherited (proto d) key = None \<Longrightarrow> lookup d key = map_of (own d) key"
  by (simp add: lookup_def split: option.splits)

lemma lookup_sweep_plain:
  "inherited (proto d) key = None \<Longrightarrow>
   lookup (sweep now d) key = Option.bind (map_of (own d) key) (kept now)"
  by (simp add: lookup_sweep split: option.splits)

lemma kept_Scalar_iff:
  "kept now s = Some (Scalar entry) \<longleftrightarrow>
     s = Scalar entry \<and> \<not> (truthy (expires entry) \<and> lt_now (expires entry) now)"
  by (cases s) auto

lemma kept_Items_iff:
  "kept now s = Some (Items items) \<longleftrightarrow>
     (\<exists>xs. s = Items xs \<and> items = filter (unexpired now) xs \<and> items \<noteq> [])"
  by (cases s) auto

lemma map_of_sweep_Some:
  "map_of (own (sweep now d)) k = Some s' \<longleftrightarrow>
     (\<exists>s. map_of (own d) k = Some s \<and> kept now s = Some s')"
  by (cases "map_of (own d) k") (simp_all add: map_of_sweep)

section \<open>\<open>pull\<close>\<close>

text \<open>
  In the file with options, \<open>pull\<close> on a list slot leaves exactly the entries whose value
  the matcher rejects, in their order.
\<close>

lemma pull_removes_matches:
  "lookup (data c) key = Some (Items items) \<Longrightarrow>
   lookup (data (fst (pull key m (c, e)))) key =
     Some (Items (filter (\<lambda>item. \<not> matcher_of m (entry_value item)) items))"
  by (simp add: data_scheduleWrite lookup_assign del: scheduleWrite.simps)

lemma pull_scenario:
  "fst (list_values ''nums'' 30
     (fst (pull ''nums'' (Literal 1)
        (push ''nums'' 2 None 20 (push ''nums'' 1 None 10 (store0, env0)))))) = [2]"
  by (simp add: store0_def env0_def empty_object_def list_values_def lookup_def assign_def
      inherited_def setImmediate_def ttl_arg_def expiry_def unexpired_def truthy_def gt_now_def)

lemma pull_part_001_keeps:
  "lookup (data c) key = Some (Items items) \<Longrightarrow>
   lookup (data (fst (pull_part_001 key m (c, e)))) key =
     Some (Items (filter (\<lambda>item. matcher_of m (entry_value item)) items))"
  by (simp add: data_scheduleWrite lookup_assign del: scheduleWrite.simps)

text \<open>
  Claim C1. For a key whose slot is a list, \<open>pull(key, matcher)\<close> removes exactly the
  entries whose value matches and keeps the others in order; after \<open>push('nums', 1)\<close>,
  \<open>push('nums', 2)\<close>, \<open>pull('nums', 1)\<close>, \<open>list('nums')\<close> returns \<open>[2]\<close>.
  The \<open>pull\<close> of the file without options does the opposite: it keeps the entries that
  match, and the scenario ends with \<open>[1]\<close>.
\<close>

theorem pull_part_001_keeps_matches:
  "fst (list_values ''nums'' 30
     (fst (pull_part_001 ''nums'' (Literal 1)
        (push ''nums'' 2 None 20 (push ''nums'' 1 None 10 (store0, env0)))))) = [1]"
  by (simp add: store0_def env0_def empty_object_def list_values_def lookup_def assign_def
      inherited_def setImmediate_def ttl_arg_def expiry_def unexpired_def truthy_def gt_now_def)

section \<open>Sweep on \<open>save\<close>\<close>

text \<open>
  What the sweep does achieve: \<open>save()\<close> at time \<open>now\<close> writes the own properties of its
  swept mapping to the backing file; among them no scalar entry has a non-zero
  \<open>expires\<close> below \<open>now\<close>, no list element has a non-zero \<open>expires\<close> up to \<open>now\<close>, and no key
  holds an empty list.
\<close>

lemma save_sweeps:
  "files (snd (save now (c, e))) (path c) = Some (Snapshot (own (data (fst (save now (c, e)))))) \<and>
   (\<forall>key entry x. map_of (own (data (fst (save now (c, e))))) key = Some (Scalar entry) \<longrightarrow>
      expires entry = Some x \<longrightarrow> x = 0 \<or> now \<le> x) \<and>
   (\<forall>key items. map_of (own (data (fst (save now (c, e))))) key = Some (Items items) \<longrightarrow>
      items \<noteq> [] \<and> (\<forall>item\<in>set items. \<forall>x. expires item = Some x \<longrightarrow> x = 0 \<or> now < x))"
proof (intro conjI allI impI)
  show "files (snd (save now (c, e))) (path c)
      = Some (Snapshot (own (data (fst (save now (c, e))))))"
    by (simp add: files_save data_save)
next
  fix key entry x
  assume "map_of (own (data (fst (save now (c, e))))) key = Some (Scalar entry)"
    "expires entry = Some x"
  then show "x = 0 \<or> now \<le> x"
    by (auto simp: data_save map_of_sweep_Some kept_Scalar_iff truthy_def lt_now_def)
next
  fix key items
  assume a: "map_of (own (data (fst (save now (c, e))))) key = Some (Items items)"
  then obtain xs where xs: "items = filter (unexpired now) xs" "items \<noteq> []"
    by (auto simp: data_save map_of_sweep_Some kept_Items_iff)
  show "items \<noteq> []" by (rule xs)
  show "\<forall>item\<in>set items. \<forall>x. expires item = Some x \<longrightarrow> x = 0 \<or> now < x"
    using xs by (auto simp: unexpired_def truthy_def gt_now_def)
qed

text \<open>
  Claim C2. After \<open>save()\<close> at time \<open>now\<close>, the mapping written to the backing file has no
  entry, scalar or list element, with \<open>expires <= now\<close>, and no key whose list is empty.
  The scalar branch of the loop tests \<open>expires < now\<close>, where the list branch of the same
  loop and both reads take an entry for live only when \<open>expires > now\<close>. So
  \<open>set('a', 1, 0)\<close> followed by \<open>save()\<close> in the same millisecond writes the entry, with
  \<open>expires = now\<close>, although \<open>get('a')\<close> already returns absent; after \<open>push('a', 1, 0)\<close>
  the same \<open>save()\<close> sweeps it.
\<close>

theorem save_writes_scalar_expiring_now:
  "fst (get ''a'' 1000 (fst (set_value ''a'' 1 (Some (Finite 0)) 1000 (store0, env0)))) = None \<and>
   files (snd (save 1000 (set_value ''a'' 1 (Some (Finite 0)) 1000 (store0, env0)))) ''cache.json''
     = Some (Snapshot [(''a'', Scalar \<lparr>entry_value = 1, expires = Some 1000\<rparr>)]) \<and>
   files (snd (save 1000 (push ''a'' 1 (Some (Finite 0)) 1000 (store0, env0)))) ''cache.json''
     = Some (Snapshot [])"
  by (simp add: files_save data_scheduleWrite get_def set_internal_def store0_def env0_def
      empty_object_def lookup_def assign_def inherited_def delete_property_def keys_def
      setImmediate_def ttl_arg_def expiry_def sweep_def sweep_key_def unexpired_def
      truthy_def gt_now_def lt_now_def)

theorem save_writes_scalar_expiring_now_witness:
  "fst (get ''a'' 1000 (fst (set_value ''a'' 1 (Some (Finite 0)) 1000 (store0, env0)))) = None"
  using save_writes_scalar_expiring_now by (rule conjunct1)

section \<open>Shapes\<close>

text \<open>
  Claim C4. For a key whose slot holds a list, \<open>get(key)\<close> returns absent; for a key whose
  slot is absent or holds a scalar entry, \<open>list(key)\<close> returns the empty sequence. The slot
  of a key is what \<open>data[key]\<close> finds.
\<close>

theorem shape_disjointness:
  "(lookup (data c) key = Some (Items items) \<longrightarrow> fst (get key now c) = None) \<and>
   ((lookup (data c) key = None \<or> lookup (data c) key = Some (Scalar entry)) \<longrightarrow>
      fst (list_values key now c) = [])"
  by (auto simp: get_def list_values_def)

theorem shape_disjointness_witness:
  "lookup (data store1) ''b''
     = Some (Items [\<lparr>entry_value = 2, expires = Some 1000\<rparr>,
                    \<lparr>entry_value = 3, expires = Some 1001\<rparr>]) \<and>
   fst (get ''b'' 500 store1) = None \<and>
   lookup (data store1) ''a'' = Some (Scalar \<lparr>entry_value = 1, expires = Some 2000\<rparr>) \<and>
   fst (list_values ''a'' 500 store1) = []"
  using shape_disjointness [of store1 "''b''"
      "[\<lparr>entry_value = 2, expires = Some 1000\<rparr>, \<lparr>entry_value = 3, expires = Some 1001\<rparr>]" 500]
    shape_disjointness [of store1 "''a''" _ 500 "\<lparr>entry_value = 1, expires = Some 2000\<rparr>"]
  by (simp add: store1_def lookup_def)

section \<open>Reads after \<open>save\<close>\<close>

text \<open>
  For a key that finds nothing on the prototype chain, a \<open>save\<close> at a time not after the
  read changes nothing of what \<open>get\<close> and \<open>list\<close> return: what it removes, the read filters
  out anyway.
\<close>

lemma unexpired_mono: "s \<le> t \<Longrightarrow> unexpired t x \<Longrightarrow> unexpired s x"
  by (auto simp: unexpired_def gt_now_def truthy_def split: option.splits)

lemma filter_unexpired_twice:
  "s \<le> t \<Longrightarrow> filter (unexpired t) (filter (unexpired s) xs) = filter (unexpired t) xs"
  by (induction xs) (auto dest: unexpired_mono)

lemma get_after_save:
  assumes "s \<le> t" "inherited (proto (data c)) key = None"
  shows "fst (get key t (fst (save s (c, e)))) = fst (get key t c)"
proof (cases "map_of (own (data c)) key")
  case None
  with assms(2) show ?thesis by (simp add: get_def data_save lookup_sweep_plain lookup_plain)
next
  case (Some sl)
  show ?thesis
  proof (cases sl)
    case (Scalar entry)
    with Some assms show ?thesis
      by (auto simp: get_def data_save lookup_sweep_plain lookup_plain truthy_def lt_now_def gt_now_def
          split: option.splits)
  next
    case (Items xs)
    with Some assms(2) show ?thesis by (simp add: get_def data_save lookup_sweep_plain lookup_plain)
  qed
qed

lemma list_after_save:
  assumes "s \<le> t" "inherited (proto (data c)) key = None"
  shows "fst (list_values key t (fst (save s (c, e)))) = fst (list_values key t c)"
proof (cases "map_of (own (data c)) key")
  case None
  with assms(2) show ?thesis by (simp add: list_values_def data_save lookup_sweep_plain lookup_plain)
next
  case (Some sl)
  show ?thesis
  proof (cases sl)
    case (Scalar entry)
    with Some assms(2) show ?thesis
      by (simp add: list_values_def data_save lookup_sweep_plain lookup_plain)
  next
    case (Items xs)
    have eq: "filter (unexpired t) (filter (unexpired s) xs) = filter (unexpired t) xs"
      using assms(1) by (rule filter_unexpired_twice)
    show ?thesis
    proof (cases "filter (unexpired s) xs = []")
      case True
      with eq have "filter (unexpired t) xs = []" by (simp del: filter_filter)
      with True Some Items assms(2) show ?thesis
        by (simp add: list_values_def data_save lookup_sweep_plain lookup_plain)
    next
      case False
      with eq Some Items assms(2) show ?thesis
        by (simp add: list_values_def data_save lookup_sweep_plain lookup_plain del: filter_filter)
    qed
  qed
qed

lemma proto_save: "proto (data (fst (save s w))) = proto (data (fst w))"
  by (cases w) (simp add: data_save proto_sweep)

lemma proto_saves: "proto (data (fst (fold save ts w))) = proto (data (fst w))"
  by (induction ts arbitrary: w) (simp_all add: proto_save)

lemma get_after_saves:
  "\<forall>s\<in>set ts. s \<le> t \<Longrightarrow> inherited (proto (data (fst w))) key = None \<Longrightarrow>
   fst (get key t (fst (fold save ts w))) = fst (get key t (fst w))"
proof (induction ts arbitrary: w)
  case Nil
  show ?case by simp
next
  case (Cons s ts)
  obtain c e where w: "w = (c, e)" by (cases w)
  from Cons.prems have st: "s \<le> t" "\<forall>s\<in>set ts. s \<le> t" by simp_all
  have "inherited (proto (data (fst (save s w)))) key = None"
    using Cons.prems(2) by (simp add: proto_save)
  from Cons.IH [OF st(2) this] show ?case
    using st(1) Cons.prems(2) by (simp add: w get_after_save)
qed

lemma list_after_saves:
  "\<forall>s\<in>set ts. s \<le> t \<Longrightarrow> inherited (proto (data (fst w))) key = None \<Longrightarrow>
   fst (list_values key t (fst (fold save ts w))) = fst (list_values key t (fst w))"
proof (induction ts arbitrary: w)
  case Nil
  show ?case by simp
next
  case (Cons s ts)
  obtain c e where w: "w = (c, e)" by (cases w)
  from Cons.prems have st: "s \<le> t" "\<forall>s\<in>set ts. s \<le> t" by simp_all
  have "inherited (proto (data (fst (save s w)))) key = None"
    using Cons.prems(2) by (simp add: proto_save)
  from Cons.IH [OF st(2) this] show ?case
    using st(1) Cons.prems(2) by (simp add: w list_after_save)
qed

lemma get_set_value:
  "fst (get key t (fst (set_value key v (Some (Finite n)) t0 (c, e)))) =
     (if t0 + n = 0 \<or> t < t0 + n then Some v else None)"
  by (simp add: get_def data_scheduleWrite set_internal_def lookup_assign ttl_arg_def expiry_def
      truthy_def gt_now_def del: scheduleWrite.simps)

lemma list_push:
  "fst (list_values key t (fst (push key v (Some (Finite n)) t0 (c, e)))) =
     fst (list_values key t c) @ (if t0 + n = 0 \<or> t < t0 + n then [v] else [])"
  by (simp add: list_values_def data_scheduleWrite lookup_assign ttl_arg_def expiry_def
      truthy_def gt_now_def unexpired_def del: scheduleWrite.simps
      split: option.splits slot.splits)

section \<open>Time to live\<close>

text \<open>
  An entry written at time \<open>t0\<close> with a finite \<open>ttl = n\<close> under a key other than
  \<open>__proto__\<close> that finds nothing on the prototype chain, with \<open>expires = t0 + n\<close> not \<open>0\<close>,
  is read as the claim below says, with any number of calls of \<open>save\<close> before the read (at
  times up to it): \<open>get\<close> returns the value when \<open>t < expires\<close> and absent otherwise;
  \<open>list\<close> returns what it returned without the entry, followed by the value when
  \<open>t < expires\<close>.
\<close>

lemma ttl_reads:
  assumes "t0 + n \<noteq> 0" "\<forall>s\<in>set ts. s \<le> t"
    "key \<noteq> ''__proto__''" "inherited (proto (data c)) key = None"
  shows "fst (get key t (fst (fold save ts (set_value key v (Some (Finite n)) t0 (c, e))))) =
     (if t < t0 + n then Some v else None)"
    and "fst (list_values key t (fst (fold save ts (push key v (Some (Finite n)) t0 (c, e))))) =
     fst (list_values key t c) @ (if t < t0 + n then [v] else [])"
proof -
  have 1: "inherited (proto (data (fst (set_value key v (Some (Finite n)) t0 (c, e))))) key = None"
    using assms(3,4)
    by (simp add: data_scheduleWrite set_internal_def assign_def del: scheduleWrite.simps)
  have 2: "inherited (proto (data (fst (push key v (Some (Finite n)) t0 (c, e))))) key = None"
    using assms(3,4) by (simp add: data_scheduleWrite assign_def del: scheduleWrite.simps)
  show "fst (get key t (fst (fold save ts (set_value key v (Some (Finite n)) t0 (c, e))))) =
     (if t < t0 + n then Some v else None)"
    using assms(1) by (simp only: get_after_saves [OF assms(2) 1] get_set_value) simp
  show "fst (list_values key t (fst (fold save ts (push key v (Some (Finite n)) t0 (c, e))))) =
     fst (list_values key t c) @ (if t < t0 + n then [v] else [])"
    using assms(1) by (simp only: list_after_saves [OF assms(2) 2] list_push) simp
qed

text \<open>
  Claim C3. An entry written with a finite \<open>ttl\<close> is returned by \<open>get\<close> and \<open>list\<close> at every
  time before \<open>expires\<close> and is absent from them at every time from \<open>expires\<close> on,
  whether or not \<open>save()\<close> has run in between.
  After \<open>push('__proto__', 9)\<close> the prototype of \<open>data\<close> is the array with that entry, and
  the key \<open>0\<close> finds it. \<open>set('0', 1, 50)\<close> at time \<open>1000\<close> creates an own property that hides
  it. At time \<open>1060\<close> the entry has expired: \<open>get('0')\<close> returns absent as long as no
  \<open>save()\<close> has run, and returns \<open>9\<close> once \<open>save()\<close> has deleted the own property.
\<close>

theorem expired_entry_uncovers_inherited_one:
  "fst (get ''0'' 1060
     (fst (set_value ''0'' 1 (Some (Finite 50)) 1000
        (push ''__proto__'' 9 None 1000 (store0, env0))))) = None \<and>
   fst (get ''0'' 1060
     (fst (save 1060
        (set_value ''0'' 1 (Some (Finite 50)) 1000
           (push ''__proto__'' 9 None 1000 (store0, env0)))))) = Some 9"
  by (simp add: get_def data_save data_scheduleWrite set_internal_def store0_def env0_def
      empty_object_def lookup_def assign_def inherited_def delete_property_def keys_def
      array_index_def digit_of_def setImmediate_def ttl_arg_def expiry_def sweep_def
      sweep_key_def unexpired_def truthy_def gt_now_def lt_now_def)

theorem expired_entry_uncovers_inherited_one_witness:
  "fst (get ''0'' 1060
     (fst (save 1060
        (set_value ''0'' 1 (Some (Finite 50)) 1000
           (push ''__proto__'' 9 None 1000 (store0, env0)))))) = Some 9"
  using expired_entry_uncovers_inherited_one by (rule conjunct2)

section \<open>Loading a snapshot\<close>

text \<open>
  Claim C6, as stated: when the backing file exists and its contents cannot be parsed as
  the expected serialised mapping, the constructor raises. It fails for a file holding
  \<open>42\<close>: \<open>JSON.parse\<close> returns the number, nothing checks its shape, and the constructor
  returns normally.
\<close>

theorem constructor_accepts_primitive:
  "constructor ''cache.json'' None clock0 (env0\<lparr>files := [''cache.json'' \<mapsto> Primitive (JNum 42)]\<rparr>)
   = Created_unchecked (JNum 42) (env0\<lparr>files := [''cache.json'' \<mapsto> Primitive (JNum 42)]\<rparr>)"
  by (simp add: constructor_def)

text \<open>
  Claim C6, amended: when the backing file exists and its text is not valid JSON, the
  constructor raises the parser's error and no store is created; when the text is valid
  JSON, what it parses to is loaded as it is, with no check of its shape and no purge of
  expired entries.
\<close>

theorem constructor_with_file:
  "(files e p = Some Malformed \<longrightarrow> constructor p options clock e = Raised SyntaxError) \<and>
   (files e p = Some (Snapshot d) \<longrightarrow>
      constructor p options clock e =
        Created (\<lparr>path = p, ttl = options_ttl options, data = \<lparr>own = d, proto = None\<rparr>,
                  writeDebounceTimer = None\<rparr>, e)) \<and>
   (files e p = Some (Primitive j) \<longrightarrow> constructor p options clock e = Created_unchecked j e)"
  by (simp add: constructor_def)

theorem constructor_with_file_witness:
  "constructor ''cache.json'' None clock0 (env0\<lparr>files := [''cache.json'' \<mapsto> Malformed]\<rparr>)
     = Raised SyntaxError \<and>
   constructor ''cache.json'' None clock0
       (env0\<lparr>files := [''cache.json'' \<mapsto> Snapshot (own (data store1))]\<rparr>)
     = Created (store1, env0\<lparr>files := [''cache.json'' \<mapsto> Snapshot (own (data store1))]\<rparr>) \<and>
   constructor ''cache.json'' None clock0
       (env0\<lparr>files := [''cache.json'' \<mapsto> Primitive JNull]\<rparr>)
     = Created_unchecked JNull (env0\<lparr>files := [''cache.json'' \<mapsto> Primitive JNull]\<rparr>)"
  using constructor_with_file [of "env0\<lparr>files := [''cache.json'' \<mapsto> Malformed]\<rparr>"
      "''cache.json''" None clock0]
    constructor_with_file [of
      "env0\<lparr>files := [''cache.json'' \<mapsto> Snapshot (own (data store1))]\<rparr>"
      "''cache.json''" None clock0 "own (data store1)"]
    constructor_with_file [of "env0\<lparr>files := [''cache.json'' \<mapsto> Primitive JNull]\<rparr>"
      "''cache.json''" None clock0 _ JNull]
  by (simp add: store1_def options_ttl_def)

section \<open>Round trip\<close>

lemma get_data_cong: "data c1 = data c2 \<Longrightarrow> fst (get key t c1) = fst (get key t c2)"
  by (simp add: get_def split: option.splits slot.splits)

lemma list_data_cong:
  "data c1 = data c2 \<Longrightarrow> fst (list_values key t c1) = fst (list_values key t c2)"
  by (simp add: list_values_def split: option.splits slot.splits)

lemma constructor_after_save:
  "constructor (path c) options clock (snd (save s (c, e))) =
     Created (\<lparr>path = path c, ttl = options_ttl options,
               data = \<lparr>own = own (sweep s (data c)), proto = None\<rparr>,
               writeDebounceTimer = None\<rparr>, snd (save s (c, e)))"
  by (simp add: constructor_def files_save)

text \<open>
  When the prototype of \<open>data\<close> has not been replaced, a store constructed on the file that
  \<open>save()\<close> wrote returns, at every time from the time of that \<open>save\<close> on, what the
  previous store returns for \<open>get\<close> and \<open>list\<close>.
\<close>

lemma round_trip_own:
  assumes "s \<le> t" "proto (data c) = None"
    "constructor (path c) options clock (snd (save s (c, e))) = Created (c2, e2)"
  shows "fst (get key t c2) = fst (get key t c)"
    and "fst (list_values key t c2) = fst (list_values key t c)"
proof -
  have "proto (sweep s (data c)) = None" using assms(2) by (simp add: proto_sweep)
  then have "\<lparr>own = own (sweep s (data c)), proto = None\<rparr> = sweep s (data c)" by simp
  with assms(3) have d: "data c2 = data (fst (save s (c, e)))"
    by (auto simp: constructor_after_save data_save)
  have i: "inherited (proto (data c)) key = None"
    using assms(2) by (simp add: inherited_def)
  show "fst (get key t c2) = fst (get key t c)"
    using get_data_cong [OF d] get_after_save [OF assms(1) i] by simp
  show "fst (list_values key t c2) = fst (list_values key t c)"
    using list_data_cong [OF d] list_after_save [OF assms(1) i] by simp
qed

text \<open>
  Claim C9. A store constructed on the file that \<open>save()\<close> of a previous store wrote
  returns, for every key still unexpired, the live values that the previous store
  returns for \<open>get\<close> and \<open>list\<close>.
  \<open>set('__proto__', 1)\<close> makes the entry the prototype of \<open>data\<close> and no own property, so
  \<open>save()\<close> writes \<open>{}\<close>: the previous store returns \<open>1\<close> for \<open>get('__proto__')\<close>, the store
  constructed on the file returns absent.
\<close>

theorem round_trip_loses_proto_entry:
  "fst (get ''__proto__'' 2000
     (fst (save 1000 (set_value ''__proto__'' 1 None 1000 (store0, env0))))) = Some 1 \<and>
   files (snd (save 1000 (set_value ''__proto__'' 1 None 1000 (store0, env0)))) ''cache.json''
     = Some (Snapshot []) \<and>
   constructor ''cache.json'' None clock0
       (snd (save 1000 (set_value ''__proto__'' 1 None 1000 (store0, env0))))
     = Created (store0, snd (save 1000 (set_value ''__proto__'' 1 None 1000 (store0, env0)))) \<and>
   fst (get ''__proto__'' 2000 store0) = None"
proof -
  have f: "files (snd (save 1000 (set_value ''__proto__'' 1 None 1000 (store0, env0))))
      ''cache.json'' = Some (Snapshot [])"
    by (simp add: files_save data_scheduleWrite set_internal_def store0_def env0_def
        empty_object_def assign_def keys_def sweep_def setImmediate_def)
  then have "constructor ''cache.json'' None clock0
       (snd (save 1000 (set_value ''__proto__'' 1 None 1000 (store0, env0))))
     = Created (store0, snd (save 1000 (set_value ''__proto__'' 1 None 1000 (store0, env0))))"
    by (simp add: constructor_def options_ttl_def store0_def empty_object_def
        del: set_value.simps)
  moreover have "fst (get ''__proto__'' 2000
     (fst (save 1000 (set_value ''__proto__'' 1 None 1000 (store0, env0))))) = Some 1"
    by (simp add: get_def data_save data_scheduleWrite set_internal_def store0_def env0_def
        empty_object_def lookup_def assign_def inherited_def keys_def sweep_def
        setImmediate_def ttl_arg_def expiry_def truthy_def)
  moreover have "fst (get ''__proto__'' 2000 store0) = None"
    by (simp add: get_def store0_def empty_object_def lookup_def inherited_def)
  ultimately show ?thesis using f by simp
qed

theorem round_trip_loses_proto_entry_witness:
  "fst (get ''__proto__'' 2000
     (fst (save 1000 (set_value ''__proto__'' 1 None 1000 (store0, env0))))) = Some 1"
  using round_trip_loses_proto_entry by (rule conjunct1)

section \<open>An \<open>expires\<close> of zero\<close>

lemma scalar_zero_saved:
  assumes "lookup (data (fst w)) key = Some (Scalar entry)" "expires entry = Some 0"
  shows "lookup (data (fst (save s w))) key = Some (Scalar entry)"
proof -
  obtain c e where w: "w = (c, e)" by (cases w)
  show ?thesis
  proof (cases "map_of (own (data c)) key")
    case None
    with assms(1) have "inherited (proto (data c)) key = Some (Scalar entry)"
      by (simp add: w lookup_def)
    with None show ?thesis by (simp add: w data_save lookup_sweep)
  next
    case (Some sl)
    with assms(1) have "sl = Scalar entry" by (simp add: w lookup_def)
    with Some assms(2) show ?thesis by (simp add: w data_save lookup_sweep truthy_def)
  qed
qed

lemma item_zero_saved:
  assumes "lookup (data (fst w)) key = Some (Items items)" "item \<in> set items"
    "expires item = Some 0"
  shows "\<exists>items'. lookup (data (fst (save s w))) key = Some (Items items') \<and> item \<in> set items'"
proof -
  obtain c e where w: "w = (c, e)" by (cases w)
  show ?thesis
  proof (cases "map_of (own (data c)) key")
    case None
    with assms(1) have "inherited (proto (data c)) key = Some (Items items)"
      by (simp add: w lookup_def)
    with None assms(2) show ?thesis by (simp add: w data_save lookup_sweep)
  next
    case (Some sl)
    with assms(1) have sl: "sl = Items items" by (simp add: w lookup_def)
    have "unexpired s item" using assms(3) by (simp add: unexpired_def truthy_def)
    with assms(2) have m: "item \<in> set (filter (unexpired s) items)" by simp
    then have "filter (unexpired s) items \<noteq> []" by (metis empty_iff empty_set)
    with m Some sl show ?thesis by (simp add: w data_save lookup_sweep del: set_filter)
  qed
qed

lemma scalar_zero_saves:
  "lookup (data (fst w)) key = Some (Scalar entry) \<Longrightarrow> expires entry = Some 0 \<Longrightarrow>
   lookup (data (fst (fold save ts w))) key = Some (Scalar entry)"
  by (induction ts arbitrary: w) (simp_all add: scalar_zero_saved)

lemma item_zero_saves:
  "lookup (data (fst w)) key = Some (Items items) \<Longrightarrow> item \<in> set items \<Longrightarrow>
   expires item = Some 0 \<Longrightarrow>
   \<exists>items'. lookup (data (fst (fold save ts w))) key = Some (Items items') \<and> item \<in> set items'"
proof (induction ts arbitrary: w items)
  case Nil
  then show ?case by simp
next
  case (Cons s ts)
  from item_zero_saved [OF Cons.prems] obtain items1 where
    "lookup (data (fst (save s w))) key = Some (Items items1)" "item \<in> set items1" by blast
  from Cons.IH [OF this Cons.prems(3)] show ?case by simp
qed

text \<open>
  Claim C10. An entry, scalar or list element, whose \<open>expires\<close> is present and \<open>0\<close> never
  expires: \<open>get\<close> and \<open>list\<close> return its value at every time, and no number of calls of
  \<open>save\<close>, at any times, removes it. The slot of a key is what \<open>data[key]\<close> finds.
\<close>

theorem zero_expires_never_expires:
  "(lookup (data c) key = Some (Scalar entry) \<and> expires entry = Some 0 \<longrightarrow>
      fst (get key now c) = Some (entry_value entry) \<and>
      lookup (data (fst (fold save ts (c, e)))) key = Some (Scalar entry)) \<and>
   (lookup (data c) key = Some (Items items) \<and> item \<in> set items \<and> expires item = Some 0 \<longrightarrow>
      entry_value item \<in> set (fst (list_values key now c)) \<and>
      (\<exists>items'. lookup (data (fst (fold save ts (c, e)))) key = Some (Items items') \<and>
         item \<in> set items'))"
proof (intro conjI impI)
  assume a: "lookup (data c) key = Some (Scalar entry) \<and> expires entry = Some 0"
  then show "fst (get key now c) = Some (entry_value entry)"
    by (simp add: get_def truthy_def)
  from a show "lookup (data (fst (fold save ts (c, e)))) key = Some (Scalar entry)"
    using scalar_zero_saves [of "(c, e)" key entry ts] by simp
next
  assume a: "lookup (data c) key = Some (Items items) \<and> item \<in> set items \<and> expires item = Some 0"
  then have "unexpired now item" by (simp add: unexpired_def truthy_def)
  with a show "entry_value item \<in> set (fst (list_values key now c))"
    by (simp add: list_values_def)
  from a show "\<exists>items'. lookup (data (fst (fold save ts (c, e)))) key = Some (Items items') \<and>
         item \<in> set items'"
    using item_zero_saves [of "(c, e)" key items item ts] by simp
qed

theorem zero_expires_never_expires_witness:
  "fst (get ''d'' 5000 store1) = Some 5 \<and>
   lookup (data (fst (fold save [1000, 3000] (store1, env0)))) ''d''
     = Some (Scalar \<lparr>entry_value = 5, expires = Some 0\<rparr>) \<and>
   6 \<in> set (fst (list_values ''e'' 5000 store1)) \<and>
   (\<exists>items'. lookup (data (fst (fold save [1000, 3000] (store1, env0)))) ''e'' = Some (Items items') \<and>
      \<lparr>entry_value = 6, expires = Some 0\<rparr> \<in> set items')"
  using zero_expires_never_expires [of store1 "''d''" "\<lparr>entry_value = 5, expires = Some 0\<rparr>" 5000
      "[1000, 3000]" env0]
    zero_expires_never_expires [of store1 "''e''" _ 5000 "[1000, 3000]" env0
      "[\<lparr>entry_value = 6, expires = Some 0\<rparr>]" "\<lparr>entry_value = 6, expires = Some 0\<rparr>"]
  by (simp add: store1_def lookup_def)

section \<open>Construction without a file\<close>

lemma seed_fields:
  "path (seed es t clock c) = path c \<and> ttl (seed es t clock c) = ttl c \<and>
   writeDebounceTimer (seed es t clock c) = writeDebounceTimer c"
  by (induction es t clock c rule: seed.induct) (simp_all add: set_internal_def)

lemma seed_other:
  "k \<notin> fst ` set es \<Longrightarrow>
   map_of (own (data (seed es t clock c))) k = map_of (own (data c)) k"
  by (induction es t clock c rule: seed.induct)
     (auto simp: set_internal_def assign_def update_conv')

lemma seed_at:
  "distinct (map fst es) \<Longrightarrow> ''__proto__'' \<notin> fst ` set es \<Longrightarrow> i < length es \<Longrightarrow>
   map_of (own (data (seed es t clock c))) (fst (es ! i)) =
     Some (Scalar \<lparr>entry_value = snd (es ! i), expires = expiry t (clock i)\<rparr>)"
proof (induction es t clock c arbitrary: i rule: seed.induct)
  case (1 t clock c)
  then show ?case by simp
next
  case (2 key v rest t clock c)
  show ?case
  proof (cases i)
    case 0
    from "2.prems" have "key \<notin> fst ` set rest" "key \<noteq> ''__proto__''" by auto
    then show ?thesis
      using 0 by (simp add: seed_other set_internal_def assign_def update_conv')
  next
    case (Suc j)
    with "2.prems" have "distinct (map fst rest)" "''__proto__'' \<notin> fst ` set rest"
      "j < length rest" by simp_all
    from "2.IH" [OF this] show ?thesis using Suc by simp
  qed
qed

text \<open>
  The constructor with options, given a path with no file and initial data without the
  key \<open>__proto__\<close>: it starts from an empty mapping, writes one scalar entry for each key
  of the initial data with the default \<open>ttl\<close> (the store \<open>c0\<close> below), and calls \<open>save\<close> at
  once, so that when it returns the backing file holds the own properties of \<open>data\<close> and
  no write-back is pending. The keys of the initial data are those of an object, so they
  are distinct.
\<close>

lemma constructor_without_file:
  "files e p = None \<and> distinct (map fst (options_data options)) \<and>
   ''__proto__'' \<notin> fst ` set (options_data options) \<longrightarrow>
   (\<exists>c0. (\<forall>k. k \<notin> fst ` set (options_data options) \<longrightarrow> map_of (own (data c0)) k = None) \<and>
      (\<forall>i < length (options_data options).
         map_of (own (data c0)) (fst (options_data options ! i)) =
           Some (Scalar \<lparr>entry_value = snd (options_data options ! i),
                          expires = expiry (options_ttl options) (clock i)\<rparr>)) \<and>
      constructor p options clock e = Created (save (clock (length (options_data options))) (c0, e)) \<and>
      files (snd (save (clock (length (options_data options))) (c0, e))) p =
        Some (Snapshot (own (data (fst (save (clock (length (options_data options))) (c0, e)))))) \<and>
      writeDebounceTimer (fst (save (clock (length (options_data options))) (c0, e))) = None \<and>
      immediates (snd (save (clock (length (options_data options))) (c0, e))) = immediates e)"
proof
  assume a: "files e p = None \<and> distinct (map fst (options_data options)) \<and>
    ''__proto__'' \<notin> fst ` set (options_data options)"
  let ?es = "options_data options"
  let ?c0 = "seed ?es (options_ttl options) clock
      \<lparr>path = p, ttl = options_ttl options, data = empty_object, writeDebounceTimer = None\<rparr>"
  have p: "path ?c0 = p" and tm: "writeDebounceTimer ?c0 = None"
    by (simp_all add: seed_fields)
  have 1: "\<forall>k. k \<notin> fst ` set ?es \<longrightarrow> map_of (own (data ?c0)) k = None"
    by (simp add: seed_other empty_object_def)
  have 2: "\<forall>i < length ?es. map_of (own (data ?c0)) (fst (?es ! i)) =
      Some (Scalar \<lparr>entry_value = snd (?es ! i), expires = expiry (options_ttl options) (clock i)\<rparr>)"
    using a by (simp add: seed_at)
  have 3: "constructor p options clock e = Created (save (clock (length ?es)) (?c0, e))"
    using a by (simp add: constructor_def Let_def)
  have 4: "files (snd (save (clock (length ?es)) (?c0, e))) p =
      Some (Snapshot (own (data (fst (save (clock (length ?es)) (?c0, e))))))"
    by (simp add: files_save data_save p)
  have 5: "writeDebounceTimer (fst (save (clock (length ?es)) (?c0, e))) = None"
    by (rule timer_save)
  have 6: "immediates (snd (save (clock (length ?es)) (?c0, e))) = immediates e"
    by (simp add: immediates_save tm)
  from 1 2 3 4 5 6 show "\<exists>c0. (\<forall>k. k \<notin> fst ` set (options_data options) \<longrightarrow> map_of (own (data c0)) k = None) \<and>
      (\<forall>i < length (options_data options).
         map_of (own (data c0)) (fst (options_data options ! i)) =
           Some (Scalar \<lparr>entry_value = snd (options_data options ! i),
                          expires = expiry (options_ttl options) (clock i)\<rparr>)) \<and>
      constructor p options clock e = Created (save (clock (length (options_data options))) (c0, e)) \<and>
      files (snd (save (clock (length (options_data options))) (c0, e))) p =
        Some (Snapshot (own (data (fst (save (clock (length (options_data options))) (c0, e)))))) \<and>
      writeDebounceTimer (fst (save (clock (length (options_data options))) (c0, e))) = None \<and>
      immediates (snd (save (clock (length (options_data options))) (c0, e))) = immediates e"
    by blast
qed

text \<open>
  Claim C5. Given a path with no file, the constructor starts from an empty mapping,
  writes one scalar entry for each key of the initial data with the default \<open>ttl\<close>, and
  persists at once, so that the backing file exists when it returns.
  The constructor with options writes no entry for a key \<open>__proto__\<close> of the initial
  data: the assignment makes the entry the prototype of \<open>data\<close>, and neither \<open>data\<close> nor
  the file has the key. The constructor of the two files without options does not
  persist: it calls \<open>scheduleWrite()\<close>, and when it returns one write-back is pending and
  there is no file.
\<close>

theorem constructor_misses_proto_key_and_persist:
  "constructor ''cache.json''
      (Some \<lparr>opt_data = Some [(''__proto__'', 1), (''x'', 2)], opt_ttl = None\<rparr>) clock0 env0
   = Created
       (\<lparr>path = ''cache.json'', ttl = Infinity,
         data = \<lparr>own = [(''x'', Scalar \<lparr>entry_value = 2, expires = None\<rparr>)],
                 proto = Some (Scalar \<lparr>entry_value = 1, expires = None\<rparr>)\<rparr>,
         writeDebounceTimer = None\<rparr>,
        env0\<lparr>files := [''cache.json'' \<mapsto>
                 Snapshot [(''x'', Scalar \<lparr>entry_value = 2, expires = None\<rparr>)]]\<rparr>) \<and>
   constructor_part_001 ''cache.json'' env0
   = Created (store0\<lparr>writeDebounceTimer := Some 0\<rparr>,
              env0\<lparr>immediates := [0], next_immediate := 1\<rparr>) \<and>
   files (env0\<lparr>immediates := [0], next_immediate := 1\<rparr>) ''cache.json'' = None"
  by (simp add: constructor_def constructor_part_001_def options_data_def options_ttl_def
      env0_def store0_def clock0_def empty_object_def set_internal_def expiry_def assign_def
      lookup_def inherited_def delete_property_def keys_def setImmediate_def save.simps
      Let_def sweep_def sweep_key_def truthy_def lt_now_def)

section \<open>One pending write-back\<close>

lemma pending_ok_scheduleWrite:
  "pending_ok (c, e) \<Longrightarrow> writeDebounceTimer c' = writeDebounceTimer c \<Longrightarrow>
   pending_ok (scheduleWrite (c', e))"
  by (auto simp: pending_ok_def setImmediate_def split: option.splits)

lemma pending_ok_save: "pending_ok (c, e) \<Longrightarrow> pending_ok (save now (c, e))"
  by (auto simp: pending_ok_def timer_save immediates_save split: option.splits)

lemma pending_ok_run_immediate: "pending_ok (c, e) \<Longrightarrow> pending_ok (run_immediate now (c, e))"
  by (auto simp: pending_ok_def timer_save immediates_save split: option.splits list.splits)

lemma snd_get [simp]: "snd (get key now c) = c"
  by (simp add: get_def split: option.splits slot.splits)

lemma snd_list_values [simp]: "snd (list_values key now c) = c"
  by (simp add: list_values_def split: option.splits slot.splits)

lemma pending_ok_exec: "pending_ok w \<Longrightarrow> pending_ok (exec call w)"
proof -
  assume ok: "pending_ok w"
  obtain c e where w: "w = (c, e)" by (cases w)
  obtain m now where call: "call = (m, now)" by (cases call)
  from ok show ?thesis
  proof (cases m)
    case (Pull key mv)
    show ?thesis
    proof (cases "lookup (data c) key")
      case None
      with ok show ?thesis by (simp add: w call Pull)
    next
      case (Some sl)
      with ok show ?thesis
        by (cases sl) (simp_all add: w call Pull pending_ok_scheduleWrite del: scheduleWrite.simps)
    qed
  qed (simp_all add: w call pending_ok_scheduleWrite pending_ok_save
        pending_ok_run_immediate set_internal_def
        del: scheduleWrite.simps run_immediate.simps)
qed

lemma pending_ok_run: "pending_ok w \<Longrightarrow> pending_ok (run calls w)"
  unfolding run_def by (induction calls arbitrary: w) (simp_all add: pending_ok_exec)

lemma pending_ok_constructor:
  assumes "immediates e0 = []" "constructor p options clock e0 = Created w0"
  shows "pending_ok w0"
proof (cases "files e0 p")
  case None
  let ?c0 = "seed (options_data options) (options_ttl options) clock
      \<lparr>path = p, ttl = options_ttl options, data = empty_object,
       writeDebounceTimer = None\<rparr>"
  have "pending_ok (?c0, e0)" using assms(1) by (simp add: pending_ok_def seed_fields)
  then have "pending_ok (save (clock (length (options_data options))) (?c0, e0))"
    by (rule pending_ok_save)
  with None assms(2) show ?thesis by (simp add: constructor_def Let_def)
next
  case (Some content)
  with assms show ?thesis
    by (cases content) (auto simp: constructor_def pending_ok_def)
qed

lemma scheduleWrite_pending:
  "writeDebounceTimer c \<noteq> None \<Longrightarrow> scheduleWrite (c, e) = (c, e)"
  by (auto split: option.splits)

lemma mutation_pending:
  assumes "writeDebounceTimer (fst w) \<noteq> None" "mutation m"
  shows "immediates (snd (exec (m, t) w)) = immediates (snd w) \<and>
         writeDebounceTimer (fst (exec (m, t) w)) = writeDebounceTimer (fst w)"
proof -
  obtain c e where w: "w = (c, e)" by (cases w)
  from assms show ?thesis
    by (cases m)
       (auto simp: w set_internal_def scheduleWrite_pending simp del: scheduleWrite.simps
          split: option.splits slot.splits)
qed

lemma scheduleWrite_idle:
  "writeDebounceTimer c = None \<Longrightarrow> immediates e = [] \<Longrightarrow>
   writeDebounceTimer (fst (scheduleWrite (c, e))) = Some (next_immediate e) \<and>
   immediates (snd (scheduleWrite (c, e))) = [next_immediate e]"
  by (simp add: setImmediate_def)


text \<open>
  Claim C7. In every state reached from a newly constructed store by any sequence of
  calls of the public methods and runs of the pending callback, at most one write-back is
  pending, and one is pending exactly when \<open>writeDebounceTimer\<close> is set; a mutation issued
  while one is pending schedules nothing; \<open>save\<close> leaves none pending and clears
  \<open>writeDebounceTimer\<close>, and a \<open>set\<close>, \<open>push\<close>, \<open>delete\<close> or \<open>clear\<close> after it schedules
  exactly one. The queue of the event loop starts empty.
\<close>

theorem single_write_back:
  "immediates e0 = [] \<and> constructor p options clock e0 = Created w0 \<longrightarrow>
   length (immediates (snd (run calls w0))) \<le> 1 \<and>
   (writeDebounceTimer (fst (run calls w0)) = None) = (immediates (snd (run calls w0)) = []) \<and>
   (writeDebounceTimer (fst (run calls w0)) \<noteq> None \<and> mutation m \<longrightarrow>
      immediates (snd (exec (m, t) (run calls w0))) = immediates (snd (run calls w0)) \<and>
      writeDebounceTimer (fst (exec (m, t) (run calls w0))) =
        writeDebounceTimer (fst (run calls w0))) \<and>
   writeDebounceTimer (fst (save now (run calls w0))) = None \<and>
   immediates (snd (save now (run calls w0))) = [] \<and>
   (\<forall>m' \<in> {Set key v tt, Push key v tt, Delete key, Clear}.
      \<exists>h. writeDebounceTimer (fst (exec (m', t') (save now (run calls w0)))) = Some h \<and>
          immediates (snd (exec (m', t') (save now (run calls w0)))) = [h])"
proof
  assume a: "immediates e0 = [] \<and> constructor p options clock e0 = Created w0"
  let ?w = "run calls w0"
  from a have "pending_ok w0" using pending_ok_constructor by blast
  then have ok: "pending_ok ?w" by (rule pending_ok_run)
  obtain c e where w: "?w = (c, e)" by (cases ?w)
  from ok have "pending_ok (save now (c, e))" unfolding w by (rule pending_ok_save)
  then have s: "writeDebounceTimer (fst (save now ?w)) = None" "immediates (snd (save now ?w)) = []"
    by (simp_all add: w timer_save pending_ok_def)
  obtain c1 e1 where w1: "save now ?w = (c1, e1)" by (cases "save now ?w")
  from s have s1: "writeDebounceTimer c1 = None" "immediates e1 = []" by (simp_all add: w1)
  have 1: "length (immediates (snd ?w)) \<le> 1"
    using ok by (simp add: pending_ok_def split: option.splits)
  have 2: "(writeDebounceTimer (fst ?w) = None) = (immediates (snd ?w) = [])"
    using ok by (simp add: pending_ok_def split: option.splits)
  have 3: "writeDebounceTimer (fst ?w) \<noteq> None \<and> mutation m \<longrightarrow>
      immediates (snd (exec (m, t) ?w)) = immediates (snd ?w) \<and>
      writeDebounceTimer (fst (exec (m, t) ?w)) = writeDebounceTimer (fst ?w)"
    using mutation_pending [of ?w m t] by blast
  have 4: "\<forall>m' \<in> {Set key v tt, Push key v tt, Delete key, Clear}.
      \<exists>h. writeDebounceTimer (fst (exec (m', t') (save now ?w))) = Some h \<and>
          immediates (snd (exec (m', t') (save now ?w))) = [h]"
    using s1 by (simp add: w1 set_internal_def setImmediate_def)
  from 1 2 3 s 4 show "length (immediates (snd (run calls w0))) \<le> 1 \<and>
   (writeDebounceTimer (fst (run calls w0)) = None) = (immediates (snd (run calls w0)) = []) \<and>
   (writeDebounceTimer (fst (run calls w0)) \<noteq> None \<and> mutation m \<longrightarrow>
      immediates (snd (exec (m, t) (run calls w0))) = immediates (snd (run calls w0)) \<and>
      writeDebounceTimer (fst (exec (m, t) (run calls w0))) =
        writeDebounceTimer (fst (run calls w0))) \<and>
   writeDebounceTimer (fst (save now (run calls w0))) = None \<and>
   immediates (snd (save now (run calls w0))) = [] \<and>
   (\<forall>m' \<in> {Set key v tt, Push key v tt, Delete key, Clear}.
      \<exists>h. writeDebounceTimer (fst (exec (m', t') (save now (run calls w0)))) = Some h \<and>
          immediates (snd (exec (m', t') (save now (run calls w0)))) = [h])"
    by blast
qed

theorem single_write_back_witness:
  "constructor ''cache.json'' None clock0 env0 = Created world0 \<and>
   length (immediates (snd (run [(Set ''a'' 1 None, 10), (Push ''b'' 2 None, 11)] world0))) \<le> 1 \<and>
   writeDebounceTimer (fst (run [(Set ''a'' 1 None, 10), (Push ''b'' 2 None, 11)] world0)) = Some 0 \<and>
   immediates (snd (exec (Clear, 12)
      (run [(Set ''a'' 1 None, 10), (Push ''b'' 2 None, 11)] world0))) =
     immediates (snd (run [(Set ''a'' 1 None, 10), (Push ''b'' 2 None, 11)] world0)) \<and>
   writeDebounceTimer (fst (save 13
      (run [(Set ''a'' 1 None, 10), (Push ''b'' 2 None, 11)] world0))) = None \<and>
   immediates (snd (save 13 (run [(Set ''a'' 1 None, 10), (Push ''b'' 2 None, 11)] world0))) = [] \<and>
   length (immediates (snd (exec (Clear, 14)
      (save 13 (run [(Set ''a'' 1 None, 10), (Push ''b'' 2 None, 11)] world0))))) = 1"
proof -
  let ?w = "run [(Set ''a'' 1 None, 10), (Push ''b'' 2 None, 11)] world0"
  have made: "constructor ''cache.json'' None clock0 env0 = Created world0"
    by (simp add: constructor_def options_data_def options_ttl_def env0_def world0_def store0_def
        empty_object_def keys_def save.simps Let_def sweep_def)
  have idle: "immediates env0 = []" by (simp add: env0_def)
  have pending: "writeDebounceTimer (fst ?w) = Some 0"
    by (simp add: run_def world0_def store0_def env0_def set_internal_def setImmediate_def
        empty_object_def lookup_def inherited_def)
  have m: "mutation Clear" by simp
  from single_write_back [of env0 "''cache.json''" None clock0 world0
      "[(Set ''a'' 1 None, 10), (Push ''b'' 2 None, 11)]" Clear 12 13 "''a''" 1 None 14]
    made idle pending m
  show ?thesis by (auto simp del: exec.simps)
qed

section \<open>Reads change nothing, writes ignore expiration\<close>

lemma values_of_own:
  "values_of d1 = values_of d2 \<Longrightarrow>
   map_option slot_values (map_of (own d1) k) = map_option slot_values (map_of (own d2) k)"
proof -
  assume "values_of d1 = values_of d2"
  then have "map (\<lambda>(k, s). (k, slot_values s)) (own d1) = map (\<lambda>(k, s). (k, slot_values s)) (own d2)"
    by (simp add: values_of_def)
  then have "map_of (map (\<lambda>(k, s). (k, slot_values s)) (own d1)) k =
      map_of (map (\<lambda>(k, s). (k, slot_values s)) (own d2)) k" by simp
  then show ?thesis by (simp add: map_of_map)
qed

lemma values_of_proto:
  "values_of d1 = values_of d2 \<Longrightarrow>
   map_option slot_values (proto d1) = map_option slot_values (proto d2)"
  by (simp add: values_of_def)

lemma slot_values_Items:
  "slot_values s = Inr vs \<longleftrightarrow> (\<exists>items. s = Items items \<and> vs = map entry_value items)"
  by (cases s) auto

lemma slot_values_Scalar: "slot_values s = Inl v \<longleftrightarrow> (\<exists>entry. s = Scalar entry \<and> v = entry_value entry)"
  by (cases s) auto

lemma values_of_inherited:
  assumes "map_option slot_values p1 = map_option slot_values p2"
  shows "map_option slot_values (inherited p1 k) = map_option slot_values (inherited p2 k)"
proof (cases "k = ''__proto__''")
  case True
  with assms show ?thesis by (simp add: inherited_def)
next
  case False
  show ?thesis
  proof (cases p1)
    case None
    with assms have "p2 = None" by simp
    with None False show ?thesis by (simp add: inherited_def)
  next
    case (Some s1)
    with assms obtain s2 where s2: "p2 = Some s2" "slot_values s1 = slot_values s2"
      by (cases p2) auto
    show ?thesis
    proof (cases s1)
      case (Scalar e1)
      with s2 obtain e2 where "s2 = Scalar e2" by (cases s2) auto
      with Scalar Some s2 False show ?thesis by (simp add: inherited_def)
    next
      case (Items xs1)
      with s2 obtain xs2 where xs2: "s2 = Items xs2" "map entry_value xs1 = map entry_value xs2"
        by (cases s2) auto
      then have len: "length xs1 = length xs2" by (metis length_map)
      have "entry_value (xs1 ! i) = entry_value (xs2 ! i)" if "i < length xs1" for i
        using that xs2(2) len by (metis nth_map)
      with Items Some s2 xs2 False len show ?thesis
        by (auto simp: inherited_def split: option.splits)
    qed
  qed
qed

lemma values_of_lookup:
  assumes "values_of d1 = values_of d2"
  shows "map_option slot_values (lookup d1 k) = map_option slot_values (lookup d2 k)"
proof -
  have o: "map_option slot_values (map_of (own d1) k) = map_option slot_values (map_of (own d2) k)"
    using assms by (rule values_of_own)
  have i: "map_option slot_values (inherited (proto d1) k) =
      map_option slot_values (inherited (proto d2) k)"
    using values_of_proto [OF assms] by (rule values_of_inherited)
  show ?thesis
  proof (cases "map_of (own d1) k")
    case None
    with o have "map_of (own d2) k = None" by simp
    with None i show ?thesis by (simp add: lookup_def)
  next
    case (Some s1)
    with o obtain s2 where "map_of (own d2) k = Some s2" "slot_values s1 = slot_values s2"
      by (cases "map_of (own d2) k") auto
    with Some show ?thesis by (simp add: lookup_def)
  qed
qed

lemma values_of_update:
  "map (\<lambda>(k, s). (k, slot_values s)) (AList.update k s d) =
     AList.update k (slot_values s) (map (\<lambda>(k, s). (k, slot_values s)) d)"
  by (induction d) auto

lemma values_of_delete:
  "map (\<lambda>(k, s). (k, slot_values s)) (AList.delete k d) =
     AList.delete k (map (\<lambda>(k, s). (k, slot_values s)) d)"
  by (induction d) auto

lemma values_of_assign:
  assumes "values_of d1 = values_of d2" "slot_values s1 = slot_values s2"
  shows "values_of (assign k s1 d1) = values_of (assign k s2 d2)"
proof -
  have "map_option slot_values (map_of (own d1) k) = map_option slot_values (map_of (own d2) k)"
    using assms(1) by (rule values_of_own)
  then have "(map_of (own d1) k = None) = (map_of (own d2) k = None)" by auto
  with assms show ?thesis
    by (auto simp: values_of_def assign_def values_of_update)
qed

lemma values_of_delete_property:
  "values_of d1 = values_of d2 \<Longrightarrow>
   values_of (delete_property k d1) = values_of (delete_property k d2)"
  by (simp add: values_of_def delete_property_def values_of_delete)

lemma values_of_items:
  assumes "values_of d1 = values_of d2"
  shows "map entry_value (case lookup d1 k of Some (Items items) \<Rightarrow> items | _ \<Rightarrow> []) =
         map entry_value (case lookup d2 k of Some (Items items) \<Rightarrow> items | _ \<Rightarrow> [])"
  using values_of_lookup [OF assms, of k]
  by (auto split: option.splits slot.splits)

lemma values_of_set_value:
  "values_of (data c1) = values_of (data c2) \<Longrightarrow>
   values_of (data (fst (set_value key v t1 now1 (c1, e1)))) =
     values_of (data (fst (set_value key v t2 now2 (c2, e2))))"
  by (simp add: data_scheduleWrite set_internal_def values_of_assign del: scheduleWrite.simps)

lemma values_of_push:
  assumes "values_of (data c1) = values_of (data c2)"
  shows "values_of (data (fst (push key v t1 now1 (c1, e1)))) =
     values_of (data (fst (push key v t2 now2 (c2, e2))))"
  using values_of_items [OF assms, of key]
  by (simp add: data_scheduleWrite values_of_assign [OF assms] del: scheduleWrite.simps)

lemma map_filter_values:
  "map entry_value (filter (\<lambda>item. \<not> matcher_of m (entry_value item)) xs) =
     filter (\<lambda>x. \<not> matcher_of m x) (map entry_value xs)"
  by (simp add: filter_map comp_def)

lemma pull_no_list:
  "\<not> (\<exists>xs. lookup (data c) key = Some (Items xs)) \<Longrightarrow> pull key m (c, e) = (c, e)"
  by (cases "lookup (data c) key") (auto split: slot.splits)

lemma values_of_pull:
  assumes "values_of (data c1) = values_of (data c2)"
  shows "values_of (data (fst (pull key m (c1, e1)))) = values_of (data (fst (pull key m (c2, e2))))"
proof (cases "\<exists>xs1. lookup (data c1) key = Some (Items xs1)")
  case True
  then obtain xs1 where 1: "lookup (data c1) key = Some (Items xs1)" by blast
  from values_of_lookup [OF assms, of key] 1
  have "map_option slot_values (lookup (data c2) key) = Some (Inr (map entry_value xs1))"
    by simp
  then obtain s2 where "lookup (data c2) key = Some s2" "slot_values s2 = Inr (map entry_value xs1)"
    by (cases "lookup (data c2) key") auto
  then obtain xs2 where
    2: "lookup (data c2) key = Some (Items xs2)" and m: "map entry_value xs1 = map entry_value xs2"
    by (cases s2) auto
  have f: "slot_values (Items (filter (\<lambda>item. \<not> matcher_of m (entry_value item)) xs1)) =
      slot_values (Items (filter (\<lambda>item. \<not> matcher_of m (entry_value item)) xs2))"
    by (simp only: slot_values.simps map_filter_values m)
  have "values_of (assign key (Items (filter (\<lambda>item. \<not> matcher_of m (entry_value item)) xs1)) (data c1)) =
      values_of (assign key (Items (filter (\<lambda>item. \<not> matcher_of m (entry_value item)) xs2)) (data c2))"
    using assms f by (rule values_of_assign)
  then show ?thesis
    using 1 2 by (simp add: data_scheduleWrite del: scheduleWrite.simps)
next
  case False
  have "\<not> (\<exists>xs2. lookup (data c2) key = Some (Items xs2))"
  proof
    assume "\<exists>xs2. lookup (data c2) key = Some (Items xs2)"
    then obtain xs2 where 2: "lookup (data c2) key = Some (Items xs2)" by blast
    from values_of_lookup [OF assms, of key] 2
    have "map_option slot_values (lookup (data c1) key) = Some (Inr (map entry_value xs2))"
      by simp
    then obtain s1 where "lookup (data c1) key = Some s1" "slot_values s1 = Inr (map entry_value xs2)"
      by (cases "lookup (data c1) key") auto
    then have "\<exists>xs1. lookup (data c1) key = Some (Items xs1)" by (cases s1) auto
    with False show False by contradiction
  qed
  then have "pull key m (c2, e2) = (c2, e2)" by (rule pull_no_list)
  moreover from False have "pull key m (c1, e1) = (c1, e1)" by (rule pull_no_list)
  ultimately show ?thesis using assms by (simp del: pull.simps)
qed

lemma values_of_delete_key:
  "values_of (data c1) = values_of (data c2) \<Longrightarrow>
   values_of (data (fst (delete_key key (c1, e1)))) =
     values_of (data (fst (delete_key key (c2, e2))))"
  using values_of_delete_property [of "data c1" "data c2" key]
  by (simp add: data_scheduleWrite del: scheduleWrite.simps)

lemma values_of_clear:
  "values_of (data (fst (clear (c1, e1)))) = values_of (data (fst (clear (c2, e2))))"
  by (simp add: data_scheduleWrite del: scheduleWrite.simps)

text \<open>\<open>save\<close> is not of that kind: the same values with other \<open>expires\<close> fields are swept.\<close>

lemma save_depends_on_expires:
  "values_of (data store1) = values_of (data store1_unexpiring) \<and>
   values_of (data (fst (save 1000 (store1, env0)))) \<noteq>
     values_of (data (fst (save 1000 (store1_unexpiring, env0))))"
  by (simp add: data_save values_of_def store1_def store1_unexpiring_def sweep_def sweep_key_def
      keys_def lookup_def assign_def delete_property_def unexpired_def truthy_def gt_now_def
      lt_now_def)



end
